theory Spec2Isabelle
  imports Complex_Main "HOL-Library.Multiset" "HOL-Library.Sublist"
begin

section \<open>Data model of director\_analysis.py\<close>

text \<open>
  The JSON document is a dictionary from director names to director records. Python
  dictionaries iterate in insertion order, and the analyses depend on that order, so a
  dictionary is an association list whose keys are its entries in insertion order.
  Ratings are JSON numbers that the program only copies (it never computes with them);
  they are modelled as reals. Counts are Python integers. The document is taken to have
  the shape the program reads: every director record has its three fields, every decade
  record has a count, and only the rating of a decade may be absent.
\<close>

record decade_stat =
  stat_count :: int
  stat_avg_rating :: "real option"

record director_info =
  count_in_top1000 :: int
  avg_rating_top1000 :: real
  decades :: "(string \<times> decade_stat) list"

type_synonym dataset = "(string \<times> director_info) list"

text \<open>The dictionaries built by \<open>analyze_directors\<close> (keys name, count, avg\_rating).\<close>

record director_row =
  row_name :: string
  row_count :: int
  row_avg_rating :: real

text \<open>The dictionaries built by \<open>analyze_decades\<close> (keys decade, count, avg\_rating).\<close>

record decade_row =
  decade :: string
  dec_count :: int
  dec_avg_rating :: real

datatype py_error = ValueError | TypeError | FileNotFoundError | FileExistsError
  | PermissionError | IsADirectoryError | JSONDecodeError | UnicodeDecodeError | OtherError

text \<open>
  How a call ends: it returns a value, it calls \<open>sys.exit\<close> with a status, or an exception
  leaves it uncaught.
\<close>

datatype 'a outcome = Returns 'a | Exits int | Raises py_error

section \<open>Python built-ins used by the analyses\<close>

subsection \<open>\<open>int(s)\<close> on a string\<close>

text \<open>
  \<open>int\<close> is a built-in of the language, not code of the program. The analyses take it as
  a parameter: a conversion gives the integer that \<open>int(s)\<close> returns, or \<open>None\<close> where it
  raises ValueError. A label is the sequence of bytes of its UTF-8 encoding. Every
  theorem about \<open>analyze_decades\<close> below is proved for every conversion, so it holds for
  the interpreter's own, whatever it does with digits and spaces beyond ASCII.
\<close>

type_synonym conversion = "string \<Rightarrow> int option"

text \<open>
  To run the analyses on examples, \<open>int_of_ascii\<close> is \<open>int(s)\<close> for labels of ASCII
  characters: it strips the whitespace characters 9 to 13 and 32 from both ends, accepts
  one optional sign, then decimal digits in which single underscores may separate
  digits, and refuses more than 4300 digits, the interpreter's default limit. It gives
  no value to a label with a character beyond ASCII and is used on none.
\<close>

definition is_space :: "char \<Rightarrow> bool" where
  "is_space c = (let n = (of_char c :: nat) in n = 32 \<or> (9 \<le> n \<and> n \<le> 13))"

definition is_digit :: "char \<Rightarrow> bool" where
  "is_digit c = (let n = (of_char c :: nat) in 48 \<le> n \<and> n \<le> 57)"

definition digit_val :: "char \<Rightarrow> int" where
  "digit_val c = int (of_char c) - 48"

definition strip :: "string \<Rightarrow> string" where
  "strip s = rev (dropWhile is_space (rev (dropWhile is_space s)))"

fun parse_digits :: "int \<Rightarrow> string \<Rightarrow> int option" where
  "parse_digits acc [] = Some acc"
| "parse_digits acc [c] = (if is_digit c then Some (10 * acc + digit_val c) else None)"
| "parse_digits acc (c # d # cs) =
     (if is_digit c then parse_digits (10 * acc + digit_val c) (d # cs)
      else if c = CHR ''_'' \<and> is_digit d then parse_digits (10 * acc + digit_val d) cs
      else None)"

definition max_str_digits :: nat where
  "max_str_digits = 4300"

fun parse_unsigned :: "string \<Rightarrow> int option" where
  "parse_unsigned [] = None"
| "parse_unsigned (c # cs) =
     (if max_str_digits < length (filter is_digit (c # cs)) then None
      else if is_digit c then parse_digits (digit_val c) cs
      else None)"

definition int_of_ascii :: conversion where
  "int_of_ascii s =
     (case strip s of
        [] \<Rightarrow> None
      | c # cs \<Rightarrow>
          if c = CHR ''-'' then map_option uminus (parse_unsigned cs)
          else if c = CHR ''+'' then parse_unsigned cs
          else parse_unsigned (c # cs))"

subsection \<open>\<open>list.sort(key=..., reverse=...)\<close> and slicing\<close>

text \<open>
  \<open>list.sort\<close> is a stable sort by key. With \<open>reverse=True\<close> CPython reverses the list,
  sorts it stably and reverses it again, which keeps equal keys in their original order.
\<close>

definition list_sort :: "('a \<Rightarrow> int) \<Rightarrow> bool \<Rightarrow> 'a list \<Rightarrow> 'a list" where
  "list_sort key reverse xs =
     (if reverse then rev (sort_key key (rev xs)) else sort_key key xs)"

text \<open>
  A key function that may raise: the keys are computed for every element first, and the
  first exception aborts the sort.
\<close>

fun keyed :: "('a \<Rightarrow> int option) \<Rightarrow> 'a list \<Rightarrow> (int \<times> 'a) list option" where
  "keyed key [] = Some []"
| "keyed key (x # xs) =
     (case key x of
        None \<Rightarrow> None
      | Some k \<Rightarrow> (case keyed key xs of None \<Rightarrow> None | Some ks \<Rightarrow> Some ((k, x) # ks)))"

definition list_sort_partial :: "('a \<Rightarrow> int option) \<Rightarrow> 'a list \<Rightarrow> py_error + 'a list" where
  "list_sort_partial key xs =
     (case keyed key xs of
        None \<Rightarrow> Inl ValueError
      | Some ks \<Rightarrow> Inr (map snd (sort_key fst ks)))"

text \<open>\<open>xs[:n]\<close>: a negative bound counts from the end, clamped at the start of the list.\<close>

definition slice_upto :: "'a list \<Rightarrow> int \<Rightarrow> 'a list" where
  "slice_upto xs n =
     (if n < 0 then take (nat (int (length xs) + n)) xs else take (nat n) xs)"

section \<open>The analyses\<close>

subsection \<open>\<open>analyze_directors\<close>\<close>

definition mk_director_row :: "string \<Rightarrow> director_info \<Rightarrow> director_row" where
  "mk_director_row director info =
     \<lparr>row_name = director, row_count = count_in_top1000 info,
      row_avg_rating = avg_rating_top1000 info\<rparr>"

text \<open>The loop of lines 27 to 33, with \<open>directors_list\<close> as accumulator.\<close>

fun directors_loop :: "dataset \<Rightarrow> director_row list \<Rightarrow> director_row list" where
  "directors_loop [] directors_list = directors_list"
| "directors_loop ((director, info) # rest) directors_list =
     directors_loop rest
       (if count_in_top1000 info > 0
        then directors_list @ [mk_director_row director info]
        else directors_list)"

text \<open>\<open>directors_list\<close> after the sort of line 36.\<close>

definition directors_list_sorted :: "dataset \<Rightarrow> director_row list" where
  "directors_list_sorted data = list_sort row_count True (directors_loop data [])"

definition analyze_directors :: "dataset \<Rightarrow> int \<Rightarrow> director_row list" where
  "analyze_directors data top_n = slice_upto (directors_list_sorted data) top_n"

subsection \<open>\<open>analyze_decades\<close>\<close>

definition mk_decade_row :: "string \<Rightarrow> decade_stat \<Rightarrow> decade_row" where
  "mk_decade_row d info =
     \<lparr>decade = d, dec_count = stat_count info,
      dec_avg_rating = (case stat_avg_rating info of Some r \<Rightarrow> r | None \<Rightarrow> 0)\<rparr>"

text \<open>
  The loop of lines 51 to 57, with the conversion \<open>to_int\<close> for \<open>int\<close>. The test
  \<open>decade != "unknown" and int(decade) > 0\<close> evaluates \<open>int(decade)\<close> only for labels
  other than "unknown"; a label that does not parse raises ValueError out of the loop.
\<close>

fun decades_loop :: "conversion \<Rightarrow> (string \<times> decade_stat) list \<Rightarrow> decade_row list \<Rightarrow> py_error + decade_row list" where
  "decades_loop to_int [] decades_data = Inr decades_data"
| "decades_loop to_int ((d, info) # rest) decades_data =
     (if d \<noteq> ''unknown'' then
        (case to_int d of
           None \<Rightarrow> Inl ValueError
         | Some v \<Rightarrow>
             if v > 0 then decades_loop to_int rest (decades_data @ [mk_decade_row d info])
             else decades_loop to_int rest decades_data)
      else decades_loop to_int rest decades_data)"

text \<open>
  The result carries the lines printed and then either the exception raised or the value
  returned, where Python's \<open>None\<close> is \<open>None\<close>.
\<close>

definition analyze_decades :: "conversion \<Rightarrow> dataset \<Rightarrow> string \<Rightarrow> string list \<times> (py_error + decade_row list option)" where
  "analyze_decades to_int data director_name =
     (case map_of data director_name of
        None \<Rightarrow> ([''Director '' @ director_name @ '' not found in data''], Inr None)
      | Some director_data \<Rightarrow>
          (case decades_loop to_int (decades director_data) [] of
             Inl e \<Rightarrow> ([], Inl e)
           | Inr decades_data \<Rightarrow>
               (case list_sort_partial (\<lambda>x. to_int (decade x)) decades_data of
                  Inl e \<Rightarrow> ([], Inl e)
                | Inr sorted_data \<Rightarrow> ([], Inr (Some sorted_data)))))"

section \<open>Loading the dataset\<close>

text \<open>
  The file system and the JSON parser are the environment of \<open>load_data\<close>. A path names
  nothing, a file the process may not read, a directory, or a regular file; the text of
  a regular file is a JSON document of the expected shape, text that is not JSON, or
  bytes that do not decode as text. \<open>py_open\<close> and \<open>json_load\<close> give the exception that
  \<open>open(json_path, 'r')\<close> and \<open>json.load(f)\<close> raise in each case.
\<close>

datatype file_text = WellFormed dataset | Malformed | Undecodable

datatype file_state = NoSuchFile | NoPermission | Directory | RegularFile file_text

type_synonym filesystem = "string \<Rightarrow> file_state"

definition py_open :: "filesystem \<Rightarrow> string \<Rightarrow> py_error + file_text" where
  "py_open fs json_path =
     (case fs json_path of
        NoSuchFile \<Rightarrow> Inl FileNotFoundError
      | NoPermission \<Rightarrow> Inl PermissionError
      | Directory \<Rightarrow> Inl IsADirectoryError
      | RegularFile f \<Rightarrow> Inr f)"

definition json_load :: "file_text \<Rightarrow> py_error + dataset" where
  "json_load f =
     (case f of
        WellFormed d \<Rightarrow> Inr d
      | Malformed \<Rightarrow> Inl JSONDecodeError
      | Undecodable \<Rightarrow> Inl UnicodeDecodeError)"

text \<open>
  \<open>load_data\<close>: the \<open>try\<close> block covers both calls; the two \<open>except\<close> clauses catch
  FileNotFoundError and JSONDecodeError only, and every other exception propagates.
  The result is the lines printed and how the call ends.
\<close>

definition load_data :: "filesystem \<Rightarrow> string \<Rightarrow> string list \<times> dataset outcome" where
  "load_data fs json_path =
     (case (case py_open fs json_path of Inl e \<Rightarrow> Inl e | Inr f \<Rightarrow> json_load f) of
        Inr d \<Rightarrow> ([], Returns d)
      | Inl e \<Rightarrow>
          if e = FileNotFoundError then
            ([''Error: Could not find file at '' @ json_path,
              ''Please make sure the file exists or specify the correct path using --data''],
             Exits 1)
          else if e = JSONDecodeError then
            ([''Error: File at '' @ json_path @ '' is not a valid JSON file''], Exits 1)
          else ([], Raises e))"

section \<open>Rendering and the driver\<close>

text \<open>
  What the program does to the outside world is a trace of events: a line printed, a
  figure saved to a path, a chart shown. A rendering call can fail at each of its steps,
  and whether it does is the environment's: \<open>draw_error\<close> is the exception, if any, that
  building the figure raises, \<open>mkdir_error\<close> and \<open>savefig_error\<close> those of creating the
  output directory and of writing the image, \<open>show_error\<close> that of \<open>plt.show\<close>. The
  environment also holds the files that \<open>load_data\<close> reads.
\<close>

datatype chart = TopDirectors "director_row list" | DirectorDecades string "decade_row list"

datatype event = Print string | SaveFig string | Show chart

record environment =
  files :: filesystem
  draw_error :: "chart \<Rightarrow> py_error option"
  mkdir_error :: "string \<Rightarrow> py_error option"
  savefig_error :: "string \<Rightarrow> py_error option"
  show_error :: "chart \<Rightarrow> py_error option"

text \<open>
  \<open>os.path.dirname\<close>: the part before the last slash, without trailing slashes unless it
  consists of slashes only.
\<close>

definition dirname :: "string \<Rightarrow> string" where
  "dirname p =
     (let head = rev (dropWhile (\<lambda>c. c \<noteq> CHR ''/'') (rev p))
      in if head \<noteq> [] \<and> \<not> list_all (\<lambda>c. c = CHR ''/'') head
         then rev (dropWhile (\<lambda>c. c = CHR ''/'') (rev head))
         else head)"

text \<open>
  \<open>os.makedirs(d, exist_ok=True)\<close>: the empty path raises FileNotFoundError, a path that
  names a regular file raises FileExistsError, an existing directory is left alone, and
  otherwise the directory is created unless the environment refuses.
\<close>

definition makedirs :: "environment \<Rightarrow> string \<Rightarrow> py_error option" where
  "makedirs env d =
     (if d = [] then Some FileNotFoundError
      else case files env d of
             RegularFile f \<Rightarrow> Some FileExistsError
           | Directory \<Rightarrow> None
           | NoSuchFile \<Rightarrow> mkdir_error env d
           | NoPermission \<Rightarrow> mkdir_error env d)"

text \<open>
  The saving step that both rendering functions share (lines 84 to 88 and 120 to 124);
  \<open>if output_path\<close> is false for \<open>None\<close> and for the empty string.
\<close>

definition save_figure :: "environment \<Rightarrow> string option \<Rightarrow> event list \<times> unit outcome" where
  "save_figure env output_path =
     (case output_path of
        None \<Rightarrow> ([], Returns ())
      | Some p \<Rightarrow>
          if p = [] then ([], Returns ())
          else
            (case makedirs env (dirname p) of
               Some e \<Rightarrow> ([], Raises e)
             | None \<Rightarrow>
                 (case savefig_error env p of
                    Some e \<Rightarrow> ([], Raises e)
                  | None \<Rightarrow> ([SaveFig p, Print (''Visualization saved to '' @ p)], Returns ()))))"

text \<open>Drawing a chart, saving it when asked to, showing it.\<close>

definition render :: "environment \<Rightarrow> chart \<Rightarrow> string option \<Rightarrow> event list \<times> unit outcome" where
  "render env c output_path =
     (case draw_error env c of
        Some e \<Rightarrow> ([], Raises e)
      | None \<Rightarrow>
          (case save_figure env output_path of
             (saved, Returns u) \<Rightarrow>
               (case show_error env c of
                  Some e \<Rightarrow> (saved, Raises e)
                | None \<Rightarrow> (saved @ [Show c], Returns ()))
           | (saved, r) \<Rightarrow> (saved, r)))"

definition visualize_top_directors :: "environment \<Rightarrow> director_row list \<Rightarrow> string option \<Rightarrow> event list \<times> unit outcome" where
  "visualize_top_directors env directors_data output_path =
     render env (TopDirectors directors_data) output_path"

definition visualize_director_decades :: "environment \<Rightarrow> decade_row list \<Rightarrow> string \<Rightarrow> string option \<Rightarrow> event list \<times> unit outcome" where
  "visualize_director_decades env decades_data director_name output_path =
     (if decades_data = [] then ([], Returns ())
      else render env (DirectorDecades director_name decades_data) output_path)"

text \<open>\<open>os.path.join\<close> of two components, \<open>str.replace\<close> of one character, \<open>str\<close> of an integer.\<close>

definition path_join :: "string \<Rightarrow> string \<Rightarrow> string" where
  "path_join a b =
     (if b \<noteq> [] \<and> hd b = CHR ''/'' then b
      else if a = [] \<or> last a = CHR ''/'' then a @ b
      else a @ ''/'' @ b)"

definition replace_char :: "char \<Rightarrow> char \<Rightarrow> string \<Rightarrow> string" where
  "replace_char old new s = map (\<lambda>c. if c = old then new else c) s"

fun str_nat :: "nat \<Rightarrow> string" where
  "str_nat n =
     (if n < 10 then [char_of (48 + n)]
      else str_nat (n div 10) @ [char_of (48 + n mod 10)])"

declare str_nat.simps [simp del]

definition str_int :: "int \<Rightarrow> string" where
  "str_int i = (if i < 0 then CHR ''-'' # str_nat (nat (- i)) else str_nat (nat i))"

text \<open>
  The command line after parsing and path resolution (line 150): \<open>--director\<close> has no
  default and is \<open>None\<close> when absent; the other options are always set.
\<close>

record args =
  arg_data :: string
  arg_director :: "string option"
  arg_top_n :: int
  arg_output_dir :: string

text \<open>The output path of the ranking chart (lines 161 to 163).\<close>

definition top_output_path :: "args \<Rightarrow> string option" where
  "top_output_path a =
     (if arg_output_dir a \<noteq> [] then Some (path_join (arg_output_dir a) ''top_directors.png'')
      else None)"

text \<open>The output path of the decade chart (lines 173 to 177).\<close>

definition decade_output_path :: "args \<Rightarrow> string \<Rightarrow> string option" where
  "decade_output_path a director_name =
     (if arg_output_dir a \<noteq> [] then
        Some (path_join (arg_output_dir a)
                (replace_char CHR ''/'' CHR ''_'' (replace_char CHR '' '' CHR ''_'' director_name)
                 @ ''_decades.png''))
      else None)"

text \<open>
  The part of \<open>main\<close> that runs once a director name was given (lines 169 to 181);
  \<open>if decades_data\<close> is false for \<open>None\<close> and for the empty list.
\<close>

definition main_director :: "conversion \<Rightarrow> environment \<Rightarrow> dataset \<Rightarrow> args \<Rightarrow> string \<Rightarrow> event list \<times> unit outcome" where
  "main_director to_int env data a director_name =
     (let announce = [Print (''Analyzing '' @ director_name @ [CHR 0x27] @ ''s career by decade...'')];
          (printed, res) = analyze_decades to_int data director_name
      in case res of
           Inl e \<Rightarrow> (announce @ map Print printed, Raises e)
         | Inr decades_data \<Rightarrow>
             (case decades_data of
                Some (r # rs) \<Rightarrow>
                  (let (shown, res') =
                         visualize_director_decades env (r # rs) director_name
                           (decade_output_path a director_name)
                   in (announce @ map Print printed @ shown, res'))
              | _ \<Rightarrow>
                  (announce @ map Print printed
                     @ [Print (''No decade data available for '' @ director_name)],
                   Returns ())))"

text \<open>\<open>main\<close> from line 152 on.\<close>

definition main :: "conversion \<Rightarrow> environment \<Rightarrow> args \<Rightarrow> event list \<times> unit outcome" where
  "main to_int env a =
     (let loading = [Print (''Loading data from '' @ arg_data a @ ''...'')];
          (printed, loaded) = load_data (files env) (arg_data a)
      in case loaded of
           Exits c \<Rightarrow> (loading @ map Print printed, Exits c)
         | Raises e \<Rightarrow> (loading @ map Print printed, Raises e)
         | Returns data \<Rightarrow>
             (let top_directors = analyze_directors data (arg_top_n a);
                  (shown, res) = visualize_top_directors env top_directors (top_output_path a);
                  tr = loading @ map Print printed
                       @ [Print ''Data loaded successfully!'',
                          Print (''Analyzing top '' @ str_int (arg_top_n a) @ '' directors...'')]
                       @ shown
              in case res of
                   Exits c \<Rightarrow> (tr, Exits c)
                 | Raises e \<Rightarrow> (tr, Raises e)
                 | Returns u \<Rightarrow>
                     (case arg_director a of
                        None \<Rightarrow> (tr, Returns ())
                      | Some director_name \<Rightarrow>
                          if director_name = [] then (tr, Returns ())
                          else
                            (let (tr', res') = main_director to_int env data a director_name
                             in (tr @ tr', res')))))"

text \<open>The exit status of the process: an uncaught exception ends it with status 1.\<close>

definition exit_status :: "unit outcome \<Rightarrow> int" where
  "exit_status r = (case r of Returns _ \<Rightarrow> 0 | Exits c \<Rightarrow> c | Raises _ \<Rightarrow> 1)"

section \<open>The analyses on a store\<close>

text \<open>
  To say what a call leaves unchanged, the objects a call can reach live in a store:
  the loaded dataset is one object, and every list that a function creates is another.
  A reference is an index into the store; \<open>directors_list.append\<close> and
  \<open>directors_list.sort\<close> update the list object in place, and a slice allocates a new one.
  The rows in a list are values: the dictionaries that the loops build are new and hold
  only strings and numbers copied from the dataset. An operation returns the exception
  or the value together with the store it leaves.
\<close>

type_synonym ref = nat

datatype obj = DatasetObj dataset | DirectorListObj "director_row list"
  | DecadeListObj "decade_row list"

type_synonym store = "obj list"

definition lookup :: "store \<Rightarrow> ref \<Rightarrow> obj option" where
  "lookup h r = (if r < length h then Some (h ! r) else None)"

definition alloc :: "obj \<Rightarrow> store \<Rightarrow> ref \<times> store" where
  "alloc v h = (length h, h @ [v])"

definition director_list_append :: "ref \<Rightarrow> director_row \<Rightarrow> store \<Rightarrow> (py_error + unit) \<times> store" where
  "director_list_append l x h =
     (case lookup h l of
        Some (DirectorListObj xs) \<Rightarrow> (Inr (), h[l := DirectorListObj (xs @ [x])])
      | _ \<Rightarrow> (Inl TypeError, h))"

definition director_list_sort :: "ref \<Rightarrow> store \<Rightarrow> (py_error + unit) \<times> store" where
  "director_list_sort l h =
     (case lookup h l of
        Some (DirectorListObj xs) \<Rightarrow> (Inr (), h[l := DirectorListObj (list_sort row_count True xs)])
      | _ \<Rightarrow> (Inl TypeError, h))"

definition director_list_slice :: "ref \<Rightarrow> int \<Rightarrow> store \<Rightarrow> (py_error + ref) \<times> store" where
  "director_list_slice l n h =
     (case lookup h l of
        Some (DirectorListObj xs) \<Rightarrow>
          (let (r, h') = alloc (DirectorListObj (slice_upto xs n)) h in (Inr r, h'))
      | _ \<Rightarrow> (Inl TypeError, h))"

fun directors_loop_st :: "dataset \<Rightarrow> ref \<Rightarrow> store \<Rightarrow> (py_error + unit) \<times> store" where
  "directors_loop_st [] directors_list h = (Inr (), h)"
| "directors_loop_st ((director, info) # rest) directors_list h =
     (if count_in_top1000 info > 0 then
        (case director_list_append directors_list (mk_director_row director info) h of
           (Inl e, h') \<Rightarrow> (Inl e, h')
         | (Inr _, h') \<Rightarrow> directors_loop_st rest directors_list h')
      else directors_loop_st rest directors_list h)"

definition analyze_directors_st :: "ref \<Rightarrow> int \<Rightarrow> store \<Rightarrow> (py_error + ref) \<times> store" where
  "analyze_directors_st data top_n h =
     (case lookup h data of
        Some (DatasetObj d) \<Rightarrow>
          (let (directors_list, h1) = alloc (DirectorListObj []) h
           in case directors_loop_st d directors_list h1 of
                (Inl e, h2) \<Rightarrow> (Inl e, h2)
              | (Inr _, h2) \<Rightarrow>
                  (case director_list_sort directors_list h2 of
                     (Inl e, h3) \<Rightarrow> (Inl e, h3)
                   | (Inr _, h3) \<Rightarrow> director_list_slice directors_list top_n h3))
      | _ \<Rightarrow> (Inl TypeError, h))"

definition decade_list_append :: "ref \<Rightarrow> decade_row \<Rightarrow> store \<Rightarrow> (py_error + unit) \<times> store" where
  "decade_list_append l x h =
     (case lookup h l of
        Some (DecadeListObj xs) \<Rightarrow> (Inr (), h[l := DecadeListObj (xs @ [x])])
      | _ \<Rightarrow> (Inl TypeError, h))"

text \<open>A sort whose key function raises leaves the list as it was.\<close>

definition decade_list_sort :: "conversion \<Rightarrow> ref \<Rightarrow> store \<Rightarrow> (py_error + unit) \<times> store" where
  "decade_list_sort to_int l h =
     (case lookup h l of
        Some (DecadeListObj xs) \<Rightarrow>
          (case list_sort_partial (\<lambda>x. to_int (decade x)) xs of
             Inl e \<Rightarrow> (Inl e, h)
           | Inr ys \<Rightarrow> (Inr (), h[l := DecadeListObj ys]))
      | _ \<Rightarrow> (Inl TypeError, h))"

fun decades_loop_st :: "conversion \<Rightarrow> (string \<times> decade_stat) list \<Rightarrow> ref \<Rightarrow> store \<Rightarrow> (py_error + unit) \<times> store" where
  "decades_loop_st to_int [] decades_data h = (Inr (), h)"
| "decades_loop_st to_int ((d, info) # rest) decades_data h =
     (if d \<noteq> ''unknown'' then
        (case to_int d of
           None \<Rightarrow> (Inl ValueError, h)
         | Some v \<Rightarrow>
             if v > 0 then
               (case decade_list_append decades_data (mk_decade_row d info) h of
                  (Inl e, h') \<Rightarrow> (Inl e, h')
                | (Inr _, h') \<Rightarrow> decades_loop_st to_int rest decades_data h')
             else decades_loop_st to_int rest decades_data h)
      else decades_loop_st to_int rest decades_data h)"

text \<open>\<open>analyze_decades\<close> returns the list object it built and sorted, not a copy.\<close>

definition analyze_decades_st :: "conversion \<Rightarrow> ref \<Rightarrow> string \<Rightarrow> store \<Rightarrow> string list \<times> (py_error + ref option) \<times> store" where
  "analyze_decades_st to_int data director_name h =
     (case lookup h data of
        Some (DatasetObj d) \<Rightarrow>
          (case map_of d director_name of
             None \<Rightarrow> ([''Director '' @ director_name @ '' not found in data''], Inr None, h)
           | Some director_data \<Rightarrow>
               (let (decades_data, h1) = alloc (DecadeListObj []) h
                in case decades_loop_st to_int (decades director_data) decades_data h1 of
                     (Inl e, h2) \<Rightarrow> ([], Inl e, h2)
                   | (Inr _, h2) \<Rightarrow>
                       (case decade_list_sort to_int decades_data h2 of
                          (Inl e, h3) \<Rightarrow> ([], Inl e, h3)
                        | (Inr _, h3) \<Rightarrow> ([], Inr (Some decades_data), h3))))
      | _ \<Rightarrow> ([], Inl TypeError, h))"

section \<open>Example datasets\<close>

text \<open>The dataset of the specification's worked example.\<close>

definition example_data :: dataset where
  "example_data =
     [(''A'', \<lparr>count_in_top1000 = 5, avg_rating_top1000 = 8.2,
        decades = [(''1990'', \<lparr>stat_count = 3, stat_avg_rating = Some 8.0\<rparr>),
                   (''2000'', \<lparr>stat_count = 2, stat_avg_rating = Some 8.5\<rparr>),
                   (''unknown'', \<lparr>stat_count = 1, stat_avg_rating = None\<rparr>)]\<rparr>)]"

text \<open>Three directors, two of them with the same count, one with none.\<close>

definition three_directors :: dataset where
  "three_directors =
     [(''B'', \<lparr>count_in_top1000 = 2, avg_rating_top1000 = 7.9, decades = []\<rparr>),
      (''C'', \<lparr>count_in_top1000 = 0, avg_rating_top1000 = 0, decades = []\<rparr>),
      (''D'', \<lparr>count_in_top1000 = 4, avg_rating_top1000 = 8.1, decades = []\<rparr>),
      (''E'', \<lparr>count_in_top1000 = 2, avg_rating_top1000 = 8.3, decades = []\<rparr>)]"

text \<open>Two distinct decade labels that denote the same integer.\<close>

definition zero_padded :: dataset where
  "zero_padded =
     [(''A'', \<lparr>count_in_top1000 = 2, avg_rating_top1000 = 8.0,
        decades = [(''1990'', \<lparr>stat_count = 1, stat_avg_rating = Some 8.0\<rparr>),
                   (''01990'', \<lparr>stat_count = 1, stat_avg_rating = None\<rparr>)]\<rparr>)]"

text \<open>A decade label that is neither "unknown" nor an integer.\<close>

definition bad_label :: dataset where
  "bad_label =
     [(''A'', \<lparr>count_in_top1000 = 1, avg_rating_top1000 = 8.0,
        decades = [(''1990'', \<lparr>stat_count = 1, stat_avg_rating = Some 8.0\<rparr>),
                   (''1990s'', \<lparr>stat_count = 1, stat_avg_rating = None\<rparr>)]\<rparr>)]"

text \<open>Labels that the filter drops denote the same integer; the labels kept do not.\<close>

definition dropped_duplicates :: dataset where
  "dropped_duplicates =
     [(''A'', \<lparr>count_in_top1000 = 2, avg_rating_top1000 = 8.0,
        decades = [(''0'', \<lparr>stat_count = 1, stat_avg_rating = None\<rparr>),
                   (''00'', \<lparr>stat_count = 1, stat_avg_rating = None\<rparr>),
                   (''2000'', \<lparr>stat_count = 1, stat_avg_rating = Some 8.5\<rparr>),
                   (''1990'', \<lparr>stat_count = 1, stat_avg_rating = Some 8.0\<rparr>)]\<rparr>)]"

text \<open>
  An environment in which the data file of the worked example is at \<open>/d.json\<close>, the
  directory \<open>/out\<close> exists, and no step of a rendering fails by itself.
\<close>

definition example_env :: environment where
  "example_env =
     \<lparr>files = (\<lambda>p. if p = ''/d.json'' then RegularFile (WellFormed example_data)
                    else if p = ''/out'' then Directory else NoSuchFile),
      draw_error = (\<lambda>c. None), mkdir_error = (\<lambda>d. None),
      savefig_error = (\<lambda>p. None), show_error = (\<lambda>c. None)\<rparr>"

text \<open>A run that asks for a director who is not in the data and saves its charts to \<open>/out\<close>.\<close>

definition example_args :: args where
  "example_args =
     \<lparr>arg_data = ''/d.json'', arg_director = Some ''Z'', arg_top_n = 15,
      arg_output_dir = ''/out''\<rparr>"



section \<open>Properties\<close>

subsection \<open>Evaluation on concrete inputs\<close>

lemmas eval_directors = analyze_directors_def directors_list_sorted_def list_sort_def
  slice_upto_def mk_director_row_def

lemmas eval_int = int_of_ascii_def strip_def is_space_def is_digit_def digit_val_def
  max_str_digits_def

lemmas eval_decades = analyze_decades_def list_sort_partial_def mk_decade_row_def eval_int

subsection \<open>Sorting and slicing\<close>

lemma set_list_sort: "set (list_sort key b xs) = set xs"
  by (simp add: list_sort_def)

lemma mset_list_sort: "mset (list_sort key b xs) = mset xs"
  by (simp add: list_sort_def)

lemma length_list_sort: "length (list_sort key b xs) = length xs"
  by (simp add: list_sort_def)

lemma list_sort_descending: "sorted_wrt (\<ge>) (map key (list_sort key True xs))"
proof -
  have "sorted (map key (sort_key key (rev xs)))"
    by (rule sorted_sort_key)
  then have "sorted_wrt (\<lambda>x y. y \<le> x) (rev (map key (sort_key key (rev xs))))"
    by (simp add: sorted_wrt_rev)
  then show ?thesis
    by (simp add: list_sort_def rev_map)
qed

lemma list_sort_stable:
  "filter (\<lambda>y. key y = k) (list_sort key b xs) = filter (\<lambda>y. key y = k) xs"
proof (cases b)
  case True
  have "filter (\<lambda>y. key y = k) (rev (sort_key key (rev xs)))
      = rev (filter (\<lambda>y. key y = k) (sort_key key (rev xs)))"
    by (simp add: rev_filter)
  also have "\<dots> = rev (filter (\<lambda>y. key y = k) (rev xs))"
    by (simp only: sort_key_stable)
  also have "\<dots> = filter (\<lambda>y. key y = k) xs"
    by (simp add: rev_filter)
  finally show ?thesis using True by (simp add: list_sort_def)
next
  case False
  then show ?thesis by (simp add: list_sort_def sort_key_stable)
qed

lemma slice_upto_prefix: "prefix (slice_upto xs n) xs"
  by (simp add: slice_upto_def take_is_prefix)

lemma slice_upto_all: "int (length xs) \<le> n \<Longrightarrow> slice_upto xs n = xs"
  by (simp add: slice_upto_def)

lemma length_slice_upto: "0 \<le> n \<Longrightarrow> int (length (slice_upto xs n)) \<le> n"
  by (simp add: slice_upto_def)

lemma set_slice_upto: "set (slice_upto xs n) \<subseteq> set xs"
  by (simp add: slice_upto_def set_take_subset)

lemma sorted_wrt_slice_upto: "sorted_wrt P xs \<Longrightarrow> sorted_wrt P (slice_upto xs n)"
  by (simp add: slice_upto_def sorted_wrt_take)

lemma slice_upto_negative:
  "n < 0 \<Longrightarrow> slice_upto xs n = rev (drop (nat (- n)) (rev xs))"
proof -
  assume "n < 0"
  then have "nat (int (length xs) + n) = length xs - nat (- n)" by linarith
  then show ?thesis using \<open>n < 0\<close> by (simp add: slice_upto_def rev_drop)
qed

lemma keyed_None: "keyed key xs = None \<longleftrightarrow> (\<exists>x \<in> set xs. key x = None)"
  by (induction xs) (auto split: option.splits)

lemma keyed_Some:
  "keyed key xs = Some ks \<Longrightarrow> map snd ks = xs \<and> (\<forall>p \<in> set ks. key (snd p) = Some (fst p))"
  by (induction xs arbitrary: ks) (auto split: option.splits)

lemma list_sort_partial_Inl:
  "(\<exists>x \<in> set xs. key x = None) \<Longrightarrow> list_sort_partial key xs = Inl ValueError"
  using keyed_None [of key xs] by (simp add: list_sort_partial_def)

lemma list_sort_partial_Inr:
  assumes "\<forall>x \<in> set xs. key x \<noteq> None"
  shows "\<exists>ys ks. list_sort_partial key xs = Inr ys \<and> mset ys = mset xs
           \<and> map key ys = map Some ks \<and> sorted ks"
proof -
  from assms have "keyed key xs \<noteq> None"
    by (simp add: keyed_None)
  then obtain kxs where kxs: "keyed key xs = Some kxs" by blast
  let ?s = "sort_key fst kxs"
  from keyed_Some [OF kxs] have snd_kxs: "map snd kxs = xs"
    and key_kxs: "\<forall>p \<in> set kxs. key (snd p) = Some (fst p)" by simp_all
  have res: "list_sort_partial key xs = Inr (map snd ?s)"
    by (simp add: list_sort_partial_def kxs)
  have "mset (map snd ?s) = mset (map snd kxs)"
    by simp
  then have perm: "mset (map snd ?s) = mset xs"
    by (simp only: snd_kxs)
  have keys: "map key (map snd ?s) = map Some (map fst ?s)"
    using key_kxs by simp
  have "sorted (map fst ?s)"
    by (rule sorted_sort_key)
  with res perm keys show ?thesis by blast
qed

subsection \<open>The director ranking\<close>

lemma directors_loop_eq:
  "directors_loop data acc =
     acc @ map (\<lambda>p. mk_director_row (fst p) (snd p)) [p\<leftarrow>data. 0 < count_in_top1000 (snd p)]"
  by (induction data acc rule: directors_loop.induct) simp_all

lemma directors_list_sorted_eq:
  "directors_list_sorted data =
     list_sort row_count True
       (map (\<lambda>p. mk_director_row (fst p) (snd p)) [p\<leftarrow>data. 0 < count_in_top1000 (snd p)])"
  by (simp add: directors_list_sorted_def directors_loop_eq)

lemma directors_list_sorted_positive:
  "r \<in> set (directors_list_sorted data) \<Longrightarrow> 0 < row_count r"
  by (auto simp: directors_list_sorted_eq set_list_sort mk_director_row_def)

text \<open>
  C1, as the code has it. For every dataset: whenever \<open>top_n\<close> is not negative the result
  has at most \<open>top_n\<close> entries; for every \<open>top_n\<close> each entry has a positive count and the
  entries are in non-increasing order of count; and when no more than \<open>top_n\<close> directors
  qualify, the result is the whole sorted list and holds exactly the rows of the
  qualifying directors, nothing added. (For a negative \<open>top_n\<close> the bound on the length
  fails: the slice drops entries from the end instead.)
\<close>

theorem analyze_directors_top_n:
  "(0 \<le> n \<longrightarrow> int (length (analyze_directors data n)) \<le> n)
   \<and> (\<forall>r \<in> set (analyze_directors data n). 0 < row_count r)
   \<and> sorted_wrt (\<ge>) (map row_count (analyze_directors data n))
   \<and> (int (length [p\<leftarrow>data. 0 < count_in_top1000 (snd p)]) \<le> n \<longrightarrow>
        analyze_directors data n = directors_list_sorted data
        \<and> mset (analyze_directors data n) =
          mset (map (\<lambda>p. mk_director_row (fst p) (snd p)) [p\<leftarrow>data. 0 < count_in_top1000 (snd p)]))"
proof (intro conjI impI ballI)
  assume "0 \<le> n"
  then show "int (length (analyze_directors data n)) \<le> n"
    by (simp add: analyze_directors_def length_slice_upto)
next
  fix r assume "r \<in> set (analyze_directors data n)"
  then have "r \<in> set (directors_list_sorted data)"
    using set_slice_upto [of "directors_list_sorted data" n] by (auto simp: analyze_directors_def)
  then show "0 < row_count r" by (rule directors_list_sorted_positive)
next
  have "sorted_wrt (\<ge>) (map row_count (directors_list_sorted data))"
    by (simp add: directors_list_sorted_def list_sort_descending)
  then have "sorted_wrt (\<lambda>a b. row_count a \<ge> row_count b) (slice_upto (directors_list_sorted data) n)"
    by (simp add: sorted_wrt_map sorted_wrt_slice_upto)
  then show "sorted_wrt (\<ge>) (map row_count (analyze_directors data n))"
    by (simp add: analyze_directors_def sorted_wrt_map)
next
  assume a: "int (length [p\<leftarrow>data. 0 < count_in_top1000 (snd p)]) \<le> n"
  have "length (directors_list_sorted data) = length [p\<leftarrow>data. 0 < count_in_top1000 (snd p)]"
    by (simp add: directors_list_sorted_eq length_list_sort)
  with a show full: "analyze_directors data n = directors_list_sorted data"
    by (simp add: analyze_directors_def slice_upto_all)
  show "mset (analyze_directors data n) =
          mset (map (\<lambda>p. mk_director_row (fst p) (snd p)) [p\<leftarrow>data. 0 < count_in_top1000 (snd p)])"
    by (simp only: full directors_list_sorted_eq mset_list_sort)
qed

text \<open>
  Three directors qualify out of four and three are asked for.
\<close>

theorem analyze_directors_top_n_witness:
  "(0::int) \<le> 3
   \<and> int (length [p\<leftarrow>three_directors. 0 < count_in_top1000 (snd p)]) \<le> 3
   \<and> int (length (analyze_directors three_directors 3)) \<le> 3
   \<and> sorted_wrt (\<ge>) (map row_count (analyze_directors three_directors 3))
   \<and> analyze_directors three_directors 3 =
       [\<lparr>row_name = ''D'', row_count = 4, row_avg_rating = 8.1\<rparr>,
        \<lparr>row_name = ''B'', row_count = 2, row_avg_rating = 7.9\<rparr>,
        \<lparr>row_name = ''E'', row_count = 2, row_avg_rating = 8.3\<rparr>]"
  using analyze_directors_top_n [of 3 three_directors]
  by (simp add: three_directors_def eval_directors)

text \<open>
  With \<open>top_n = -1\<close> the result has two entries, which is more than \<open>top_n\<close>.
\<close>

theorem analyze_directors_at_most_n_counterexample:
  "analyze_directors three_directors (- 1) =
     [\<lparr>row_name = ''D'', row_count = 4, row_avg_rating = 8.1\<rparr>,
      \<lparr>row_name = ''B'', row_count = 2, row_avg_rating = 7.9\<rparr>]
   \<and> \<not> int (length (analyze_directors three_directors (- 1))) \<le> - 1"
  by (simp add: three_directors_def eval_directors)

text \<open>
  C5. The rows of any one count \<open>k\<close> appear in the sorted list in the order in which their
  directors are stored in the dataset, and the rows of that count in the result of
  \<open>analyze_directors\<close> are an initial part of that sequence.
\<close>

theorem analyze_directors_stable:
  "filter (\<lambda>r. row_count r = k) (directors_list_sorted data) =
     map (\<lambda>p. mk_director_row (fst p) (snd p))
       [p\<leftarrow>data. 0 < count_in_top1000 (snd p) \<and> count_in_top1000 (snd p) = k]
   \<and> prefix (filter (\<lambda>r. row_count r = k) (analyze_directors data n))
       (map (\<lambda>p. mk_director_row (fst p) (snd p))
         [p\<leftarrow>data. 0 < count_in_top1000 (snd p) \<and> count_in_top1000 (snd p) = k])"
proof -
  have eq: "filter (\<lambda>r. row_count r = k) (directors_list_sorted data) =
     map (\<lambda>p. mk_director_row (fst p) (snd p))
       [p\<leftarrow>data. 0 < count_in_top1000 (snd p) \<and> count_in_top1000 (snd p) = k]"
    by (simp add: directors_list_sorted_eq list_sort_stable filter_map o_def mk_director_row_def)
  have "prefix (filter (\<lambda>r. row_count r = k) (analyze_directors data n))
          (filter (\<lambda>r. row_count r = k) (directors_list_sorted data))"
    unfolding analyze_directors_def by (rule filter_mono_prefix [OF slice_upto_prefix])
  with eq show ?thesis by simp
qed

text \<open>
  C10. For a negative \<open>top_n\<close> the result is the sorted list of the qualifying directors
  without its last \<open>-top_n\<close> entries, and it has more than \<open>top_n\<close> entries.
\<close>

theorem analyze_directors_negative:
  assumes "n < 0"
  shows "analyze_directors data n =
           rev (drop (nat (- n)) (rev (list_sort row_count True
             (map (\<lambda>p. mk_director_row (fst p) (snd p)) [p\<leftarrow>data. 0 < count_in_top1000 (snd p)]))))
         \<and> n < int (length (analyze_directors data n))"
  using assms by (simp add: analyze_directors_def slice_upto_negative directors_list_sorted_eq)

text \<open>
  Three qualifying directors and \<open>top_n = -1\<close>: the last one is dropped.
\<close>

theorem analyze_directors_negative_witness:
  "(- 1 :: int) < 0
   \<and> analyze_directors three_directors (- 1) =
     [\<lparr>row_name = ''D'', row_count = 4, row_avg_rating = 8.1\<rparr>,
      \<lparr>row_name = ''B'', row_count = 2, row_avg_rating = 7.9\<rparr>]
   \<and> - 1 < int (length (analyze_directors three_directors (- 1)))"
  using analyze_directors_negative [of "- 1" three_directors]
  by (simp add: three_directors_def list_sort_def mk_director_row_def)

subsection \<open>The decade breakdown\<close>

lemma decades_loop_Inr:
  assumes "\<forall>p \<in> set ds. fst p = ''unknown'' \<or> to_int (fst p) \<noteq> None"
  shows "decades_loop to_int ds acc =
           Inr (acc @ map (\<lambda>p. mk_decade_row (fst p) (snd p))
                  [p\<leftarrow>ds. fst p \<noteq> ''unknown'' \<and> (\<exists>v. to_int (fst p) = Some v \<and> 0 < v)])"
  using assms by (induction ds acc rule: decades_loop.induct) (auto split: option.splits)

lemma decades_loop_Inl:
  assumes "\<exists>p \<in> set ds. fst p \<noteq> ''unknown'' \<and> to_int (fst p) = None"
  shows "decades_loop to_int ds acc = Inl ValueError"
  using assms by (induction ds acc rule: decades_loop.induct) (auto split: option.splits)

lemma analyze_decades_Some:
  assumes info: "map_of data name = Some info"
    and ok: "\<forall>p \<in> set (decades info). fst p = ''unknown'' \<or> to_int (fst p) \<noteq> None"
  shows "\<exists>rows ks. analyze_decades to_int data name = ([], Inr (Some rows))
           \<and> mset rows = mset (map (\<lambda>p. mk_decade_row (fst p) (snd p))
                 [p\<leftarrow>decades info. fst p \<noteq> ''unknown'' \<and> (\<exists>v. to_int (fst p) = Some v \<and> 0 < v)])
           \<and> map (\<lambda>r. to_int (decade r)) rows = map Some ks \<and> sorted ks"
proof -
  let ?xs = "map (\<lambda>p. mk_decade_row (fst p) (snd p))
               [p\<leftarrow>decades info. fst p \<noteq> ''unknown'' \<and> (\<exists>v. to_int (fst p) = Some v \<and> 0 < v)]"
  have loop: "decades_loop to_int (decades info) [] = Inr ?xs"
    using decades_loop_Inr [OF ok, of "[]"] by simp
  have "\<forall>x \<in> set ?xs. to_int (decade x) \<noteq> None"
    by (auto simp: mk_decade_row_def)
  from list_sort_partial_Inr [OF this]
  obtain ys ks where ys: "list_sort_partial (\<lambda>x. to_int (decade x)) ?xs = Inr ys"
    and perm: "mset ys = mset ?xs"
    and keys: "map (\<lambda>x. to_int (decade x)) ys = map Some ks" and srt: "sorted ks"
    by blast
  have "analyze_decades to_int data name = ([], Inr (Some ys))"
    by (simp add: analyze_decades_def info loop ys)
  with perm keys srt show ?thesis by blast
qed

lemma analyze_decades_ValueError:
  assumes info: "map_of data name = Some info"
    and bad: "\<exists>p \<in> set (decades info). fst p \<noteq> ''unknown'' \<and> to_int (fst p) = None"
  shows "analyze_decades to_int data name = ([], Inl ValueError)"
  by (simp add: analyze_decades_def info decades_loop_Inl [OF bad])


lemma kept_labels:
  "[d\<leftarrow>map fst ds. d \<noteq> ''unknown'' \<and> (case to_int d of Some v \<Rightarrow> 0 < v | None \<Rightarrow> False)]
   = map fst [p\<leftarrow>ds. fst p \<noteq> ''unknown'' \<and> (\<exists>v. to_int (fst p) = Some v \<and> 0 < v)]"
  by (induction ds) (auto split: option.splits)

text \<open>
  C2, as the code has it, for every conversion \<open>to_int\<close>. When \<open>analyze_decades\<close> returns
  rows for a director: no row is labelled "unknown" and every label denotes a positive
  integer; every row is the projection of one of the director's decade records, with
  rating 0 where the record has none; and the integers denoted by the labels, in the
  order of the rows, are sorted in ascending order. They are strictly ascending exactly
  when the labels that the filter keeps (not "unknown", denoting a positive integer)
  denote pairwise different integers. (Two different labels can denote the same integer,
  and then the order is not strict.)
\<close>

theorem analyze_decades_rows:
  assumes res: "analyze_decades to_int data name = (out, Inr (Some rows))"
    and info: "map_of data name = Some info"
  shows "(\<forall>r \<in> set rows. decade r \<noteq> ''unknown'' \<and> (\<exists>v. to_int (decade r) = Some v \<and> 0 < v))
       \<and> (\<forall>r \<in> set rows. \<exists>p \<in> set (decades info).
             decade r = fst p \<and> dec_count r = stat_count (snd p)
             \<and> dec_avg_rating r = (case stat_avg_rating (snd p) of Some x \<Rightarrow> x | None \<Rightarrow> 0))
       \<and> (\<exists>ks. map (\<lambda>r. to_int (decade r)) rows = map Some ks \<and> sorted ks
             \<and> (sorted_wrt (<) ks \<longleftrightarrow>
                  distinct (map to_int
                    [d\<leftarrow>map fst (decades info).
                       d \<noteq> ''unknown'' \<and> (case to_int d of Some v \<Rightarrow> 0 < v | None \<Rightarrow> False)])))"
proof -
  let ?keep = "\<lambda>p::string \<times> decade_stat. fst p \<noteq> ''unknown'' \<and> (\<exists>v. to_int (fst p) = Some v \<and> 0 < v)"
  let ?xs = "map (\<lambda>p. mk_decade_row (fst p) (snd p)) (filter ?keep (decades info))"
  have ok: "\<forall>p \<in> set (decades info). fst p = ''unknown'' \<or> to_int (fst p) \<noteq> None"
  proof (rule ccontr)
    assume "\<not> ?thesis"
    then have "\<exists>p \<in> set (decades info). fst p \<noteq> ''unknown'' \<and> to_int (fst p) = None"
      by auto
    from analyze_decades_ValueError [OF info this] res show False by simp
  qed
  from analyze_decades_Some [OF info ok] res
  obtain ks where perm: "mset rows = mset ?xs"
    and keys: "map (\<lambda>r. to_int (decade r)) rows = map Some ks" and srt: "sorted ks"
    by auto
  from perm have set_rows: "set rows = set ?xs"
    by (rule mset_eq_setD)
  have a: "\<forall>r \<in> set rows. decade r \<noteq> ''unknown'' \<and> (\<exists>v. to_int (decade r) = Some v \<and> 0 < v)"
    unfolding set_rows by (auto simp: mk_decade_row_def)
  have b: "\<forall>r \<in> set rows. \<exists>p \<in> set (decades info).
             decade r = fst p \<and> dec_count r = stat_count (snd p)
             \<and> dec_avg_rating r = (case stat_avg_rating (snd p) of Some x \<Rightarrow> x | None \<Rightarrow> 0)"
  proof
    fix r assume "r \<in> set rows"
    then obtain p where p: "p \<in> set (decades info)" and r: "r = mk_decade_row (fst p) (snd p)"
      unfolding set_rows by auto
    have "decade r = fst p \<and> dec_count r = stat_count (snd p)
            \<and> dec_avg_rating r = (case stat_avg_rating (snd p) of Some x \<Rightarrow> x | None \<Rightarrow> 0)"
      by (simp add: r mk_decade_row_def)
    with p show "\<exists>p \<in> set (decades info).
             decade r = fst p \<and> dec_count r = stat_count (snd p)
             \<and> dec_avg_rating r = (case stat_avg_rating (snd p) of Some x \<Rightarrow> x | None \<Rightarrow> 0)"
      by (rule bexI [rotated])
  qed
  have kept: "[d\<leftarrow>map fst (decades info).
                 d \<noteq> ''unknown'' \<and> (case to_int d of Some v \<Rightarrow> 0 < v | None \<Rightarrow> False)]
              = map fst (filter ?keep (decades info))"
    by (rule kept_labels)
  have c: "sorted_wrt (<) ks \<longleftrightarrow>
             distinct (map to_int
               [d\<leftarrow>map fst (decades info).
                  d \<noteq> ''unknown'' \<and> (case to_int d of Some v \<Rightarrow> 0 < v | None \<Rightarrow> False)])"
  proof -
    have "map (\<lambda>r. to_int (decade r)) ?xs = map to_int (map fst (filter ?keep (decades info)))"
      by (simp add: o_def mk_decade_row_def)
    then have x: "distinct (map (\<lambda>r. to_int (decade r)) ?xs) \<longleftrightarrow>
                 distinct (map to_int (map fst (filter ?keep (decades info))))"
      by (rule arg_cong [where f = distinct])
    from perm have "image_mset (\<lambda>r. to_int (decade r)) (mset rows)
                  = image_mset (\<lambda>r. to_int (decade r)) (mset ?xs)"
      by (rule arg_cong [where f = "image_mset (\<lambda>r. to_int (decade r))"])
    then have "mset (map (\<lambda>r. to_int (decade r)) rows) = mset (map (\<lambda>r. to_int (decade r)) ?xs)"
      by (simp only: mset_map)
    then have y: "distinct (map (\<lambda>r. to_int (decade r)) rows) \<longleftrightarrow>
                 distinct (map (\<lambda>r. to_int (decade r)) ?xs)"
      by (rule mset_eq_imp_distinct_iff)
    have "distinct (map Some ks) \<longleftrightarrow> distinct ks"
      by (simp add: distinct_map)
    then have z: "distinct ks \<longleftrightarrow> distinct (map (\<lambda>r. to_int (decade r)) rows)"
      by (simp only: keys)
    have "sorted_wrt (<) ks \<longleftrightarrow> distinct ks"
      using srt by (simp add: strict_sorted_iff)
    also note z
    also note y
    also note x
    finally have "sorted_wrt (<) ks \<longleftrightarrow>
                    distinct (map to_int (map fst (filter ?keep (decades info))))" .
    then show ?thesis
      unfolding kept .
  qed
  have "map (\<lambda>r. to_int (decade r)) rows = map Some ks \<and> sorted ks
          \<and> (sorted_wrt (<) ks \<longleftrightarrow>
               distinct (map to_int
                 [d\<leftarrow>map fst (decades info).
                    d \<noteq> ''unknown'' \<and> (case to_int d of Some v \<Rightarrow> 0 < v | None \<Rightarrow> False)]))"
    using keys srt c by (intro conjI)
  then have d: "\<exists>ks. map (\<lambda>r. to_int (decade r)) rows = map Some ks \<and> sorted ks
          \<and> (sorted_wrt (<) ks \<longleftrightarrow>
               distinct (map to_int
                 [d\<leftarrow>map fst (decades info).
                    d \<noteq> ''unknown'' \<and> (case to_int d of Some v \<Rightarrow> 0 < v | None \<Rightarrow> False)]))"
    by (rule exI [of _ ks])
  show ?thesis
    by (rule conjI [OF a conjI [OF b d]])
qed

text \<open>
  The labels "0" and "00" denote the same integer and are dropped; the labels kept are
  1990 and 2000, and the rows are in strict order.
\<close>

theorem analyze_decades_rows_witness:
  "analyze_decades int_of_ascii dropped_duplicates ''A'' =
     ([], Inr (Some [\<lparr>decade = ''1990'', dec_count = 1, dec_avg_rating = 8.0\<rparr>,
                     \<lparr>decade = ''2000'', dec_count = 1, dec_avg_rating = 8.5\<rparr>]))
   \<and> map_of dropped_duplicates ''A'' = Some (snd (hd dropped_duplicates))
   \<and> map fst (decades (snd (hd dropped_duplicates))) = [''0'', ''00'', ''2000'', ''1990'']
   \<and> distinct (map int_of_ascii
         [d\<leftarrow>map fst (decades (snd (hd dropped_duplicates))).
            d \<noteq> ''unknown'' \<and> (case int_of_ascii d of Some v \<Rightarrow> 0 < v | None \<Rightarrow> False)])
   \<and> (\<exists>ks. map (\<lambda>r. int_of_ascii (decade r))
              [\<lparr>decade = ''1990'', dec_count = 1, dec_avg_rating = 8.0\<rparr>,
               \<lparr>decade = ''2000'', dec_count = 1, dec_avg_rating = 8.5\<rparr>] = map Some ks
          \<and> sorted ks \<and> sorted_wrt (<) ks)"
proof -
  have res: "analyze_decades int_of_ascii dropped_duplicates ''A'' =
     ([], Inr (Some [\<lparr>decade = ''1990'', dec_count = 1, dec_avg_rating = 8.0\<rparr>,
                     \<lparr>decade = ''2000'', dec_count = 1, dec_avg_rating = 8.5\<rparr>]))"
    by (simp add: dropped_duplicates_def eval_decades)
  have info: "map_of dropped_duplicates ''A'' = Some (snd (hd dropped_duplicates))"
    by (simp add: dropped_duplicates_def)
  have labels: "map fst (decades (snd (hd dropped_duplicates))) = [''0'', ''00'', ''2000'', ''1990'']"
    by (simp add: dropped_duplicates_def)
  have dist: "distinct (map int_of_ascii
         [d\<leftarrow>map fst (decades (snd (hd dropped_duplicates))).
            d \<noteq> ''unknown'' \<and> (case int_of_ascii d of Some v \<Rightarrow> 0 < v | None \<Rightarrow> False)])"
    unfolding labels by (simp add: eval_int)
  from analyze_decades_rows [OF res info]
  obtain ks where k: "map (\<lambda>r. int_of_ascii (decade r))
              [\<lparr>decade = ''1990'', dec_count = 1, dec_avg_rating = 8.0\<rparr>,
               \<lparr>decade = ''2000'', dec_count = 1, dec_avg_rating = 8.5\<rparr>] = map Some ks"
    and s: "sorted ks"
    and iff: "sorted_wrt (<) ks \<longleftrightarrow> distinct (map int_of_ascii
         [d\<leftarrow>map fst (decades (snd (hd dropped_duplicates))).
            d \<noteq> ''unknown'' \<and> (case int_of_ascii d of Some v \<Rightarrow> 0 < v | None \<Rightarrow> False)])"
    by blast
  from iff dist have "sorted_wrt (<) ks"
    by (rule iffD2)
  with k s have "\<exists>ks. map (\<lambda>r. int_of_ascii (decade r))
              [\<lparr>decade = ''1990'', dec_count = 1, dec_avg_rating = 8.0\<rparr>,
               \<lparr>decade = ''2000'', dec_count = 1, dec_avg_rating = 8.5\<rparr>] = map Some ks
          \<and> sorted ks \<and> sorted_wrt (<) ks"
    by (intro exI [of _ ks] conjI)
  with res info labels dist show ?thesis
    by (intro conjI)
qed

text \<open>
  The labels "1990" and "01990" are different keys of the dictionary and \<open>int\<close> gives
  1990 for both: both rows are returned and their order is not strict.
\<close>

theorem analyze_decades_strict_counterexample:
  "analyze_decades int_of_ascii zero_padded ''A'' =
     ([], Inr (Some [\<lparr>decade = ''1990'', dec_count = 1, dec_avg_rating = 8.0\<rparr>,
                     \<lparr>decade = ''01990'', dec_count = 1, dec_avg_rating = 0\<rparr>]))
   \<and> int_of_ascii ''1990'' = Some 1990 \<and> int_of_ascii ''01990'' = Some 1990
   \<and> \<not> sorted_wrt (<) [1990, 1990 :: int]"
  by (simp add: zero_padded_def eval_decades)

text \<open>
  C9, for every conversion \<open>to_int\<close>. For a director of the dataset: if each of the
  director's decade labels is "unknown" or has an integer, the call returns a list of
  rows; if some label is neither, the call raises ValueError, having printed nothing.
\<close>

theorem analyze_decades_label_invariant:
  assumes "map_of data name = Some info"
  shows "((\<forall>d \<in> set (map fst (decades info)). d = ''unknown'' \<or> to_int d \<noteq> None)
            \<longrightarrow> (\<exists>rows. analyze_decades to_int data name = ([], Inr (Some rows))))
       \<and> ((\<exists>d \<in> set (map fst (decades info)). d \<noteq> ''unknown'' \<and> to_int d = None)
            \<longrightarrow> analyze_decades to_int data name = ([], Inl ValueError))"
proof (intro conjI impI)
  assume "\<forall>d \<in> set (map fst (decades info)). d = ''unknown'' \<or> to_int d \<noteq> None"
  then have "\<forall>p \<in> set (decades info). fst p = ''unknown'' \<or> to_int (fst p) \<noteq> None"
    by simp
  from analyze_decades_Some [OF assms this]
  show "\<exists>rows. analyze_decades to_int data name = ([], Inr (Some rows))" by blast
next
  assume "\<exists>d \<in> set (map fst (decades info)). d \<noteq> ''unknown'' \<and> to_int d = None"
  then have "\<exists>p \<in> set (decades info). fst p \<noteq> ''unknown'' \<and> to_int (fst p) = None"
    by simp
  then show "analyze_decades to_int data name = ([], Inl ValueError)"
    by (rule analyze_decades_ValueError [OF assms])
qed

text \<open>
  The worked example returns rows; the label "1990s" raises.
\<close>

theorem analyze_decades_label_invariant_witness:
  "map_of example_data ''A'' = Some (snd (hd example_data))
   \<and> map fst (decades (snd (hd example_data))) = [''1990'', ''2000'', ''unknown'']
   \<and> int_of_ascii ''1990'' = Some 1990 \<and> int_of_ascii ''2000'' = Some 2000
   \<and> (\<exists>rows. analyze_decades int_of_ascii example_data ''A'' = ([], Inr (Some rows)))
   \<and> map_of bad_label ''A'' = Some (snd (hd bad_label))
   \<and> map fst (decades (snd (hd bad_label))) = [''1990'', ''1990s'']
   \<and> int_of_ascii ''1990s'' = None
   \<and> analyze_decades int_of_ascii bad_label ''A'' = ([], Inl ValueError)"
proof -
  have i1: "map_of example_data ''A'' = Some (snd (hd example_data))"
    by (simp add: example_data_def)
  have l1: "map fst (decades (snd (hd example_data))) = [''1990'', ''2000'', ''unknown'']"
    by (simp add: example_data_def)
  have p1: "int_of_ascii ''1990'' = Some 1990" and p2: "int_of_ascii ''2000'' = Some 2000"
    and p3: "int_of_ascii ''1990s'' = None"
    by (simp_all add: eval_int)
  have ok: "\<forall>d \<in> set (map fst (decades (snd (hd example_data)))). d = ''unknown'' \<or> int_of_ascii d \<noteq> None"
    unfolding l1 by (simp add: p1 p2)
  have i2: "map_of bad_label ''A'' = Some (snd (hd bad_label))"
    by (simp add: bad_label_def)
  have l2: "map fst (decades (snd (hd bad_label))) = [''1990'', ''1990s'']"
    by (simp add: bad_label_def)
  have bad: "\<exists>d \<in> set (map fst (decades (snd (hd bad_label)))). d \<noteq> ''unknown'' \<and> int_of_ascii d = None"
    unfolding l2 by (simp add: p3)
  from analyze_decades_label_invariant [OF i1] ok
  have r1: "\<exists>rows. analyze_decades int_of_ascii example_data ''A'' = ([], Inr (Some rows))"
    by (rule conjunct1 [THEN mp])
  from analyze_decades_label_invariant [OF i2] bad
  have r2: "analyze_decades int_of_ascii bad_label ''A'' = ([], Inl ValueError)"
    by (rule conjunct2 [THEN mp])
  from i1 l1 p1 p2 r1 i2 l2 p3 r2 show ?thesis
    by (intro conjI)
qed

text \<open>
  C7. The worked example of the specification.
\<close>

theorem worked_example:
  "analyze_directors example_data 1 = [\<lparr>row_name = ''A'', row_count = 5, row_avg_rating = 8.2\<rparr>]
   \<and> analyze_decades int_of_ascii example_data ''A'' =
       ([], Inr (Some [\<lparr>decade = ''1990'', dec_count = 3, dec_avg_rating = 8.0\<rparr>,
                       \<lparr>decade = ''2000'', dec_count = 2, dec_avg_rating = 8.5\<rparr>]))"
proof
  show "analyze_directors example_data 1 = [\<lparr>row_name = ''A'', row_count = 5, row_avg_rating = 8.2\<rparr>]"
    by (simp add: example_data_def analyze_directors_def directors_list_sorted_def list_sort_def
          slice_upto_def mk_director_row_def)
  show "analyze_decades int_of_ascii example_data ''A'' =
       ([], Inr (Some [\<lparr>decade = ''1990'', dec_count = 3, dec_avg_rating = 8.0\<rparr>,
                       \<lparr>decade = ''2000'', dec_count = 2, dec_avg_rating = 8.5\<rparr>]))"
    by (simp add: example_data_def analyze_decades_def list_sort_partial_def mk_decade_row_def
          int_of_ascii_def strip_def is_space_def is_digit_def digit_val_def max_str_digits_def)
qed

subsection \<open>Loading and the driver\<close>





text \<open>
  C3, as the code has it. A path that names nothing, and a file whose text is not JSON,
  make \<open>load_data\<close> print its message and exit with status 1, which is also how the
  process ends; a file with a well-formed document is returned parsed. A path that exists
  but cannot be opened as a file (no permission, a directory) and a file whose bytes do
  not decode raise an exception that \<open>load_data\<close> does not catch: it prints no message
  and returns nothing.
\<close>

theorem load_data_outcomes:
  "(fs p = NoSuchFile \<longrightarrow>
      load_data fs p =
        ([''Error: Could not find file at '' @ p,
          ''Please make sure the file exists or specify the correct path using --data''],
         Exits 1))
   \<and> (fs p = RegularFile Malformed \<longrightarrow>
      load_data fs p = ([''Error: File at '' @ p @ '' is not a valid JSON file''], Exits 1))
   \<and> (fs p = RegularFile (WellFormed d) \<longrightarrow> load_data fs p = ([], Returns d))
   \<and> (fs p = NoPermission \<longrightarrow> load_data fs p = ([], Raises PermissionError))
   \<and> (fs p = Directory \<longrightarrow> load_data fs p = ([], Raises IsADirectoryError))
   \<and> (fs p = RegularFile Undecodable \<longrightarrow> load_data fs p = ([], Raises UnicodeDecodeError))
   \<and> (arg_data a = p \<and> files env = fs \<and> (fs p = NoSuchFile \<or> fs p = RegularFile Malformed) \<longrightarrow>
        snd (main to_int env a) = Exits 1 \<and> exit_status (snd (main to_int env a)) = 1)"
  by (auto simp: load_data_def py_open_def json_load_def main_def exit_status_def)

text \<open>
  One file system for each of the six states of the path.
\<close>

theorem load_data_outcomes_witness:
  "load_data (\<lambda>p. NoSuchFile) ''d.json'' =
     ([''Error: Could not find file at d.json'',
       ''Please make sure the file exists or specify the correct path using --data''], Exits 1)
   \<and> load_data (\<lambda>p. RegularFile Malformed) ''d.json'' =
     ([''Error: File at d.json is not a valid JSON file''], Exits 1)
   \<and> load_data (\<lambda>p. RegularFile (WellFormed example_data)) ''d.json'' = ([], Returns example_data)
   \<and> load_data (\<lambda>p. NoPermission) ''d.json'' = ([], Raises PermissionError)
   \<and> load_data (\<lambda>p. Directory) ''d.json'' = ([], Raises IsADirectoryError)
   \<and> load_data (\<lambda>p. RegularFile Undecodable) ''d.json'' = ([], Raises UnicodeDecodeError)
   \<and> exit_status (snd (main int_of_ascii (example_env\<lparr>files := (\<lambda>p. NoSuchFile)\<rparr>)
        (example_args\<lparr>arg_data := ''d.json''\<rparr>))) = 1"
  using load_data_outcomes [of "\<lambda>p. NoSuchFile" "''d.json''" example_data
          "example_args\<lparr>arg_data := ''d.json''\<rparr>" "example_env\<lparr>files := (\<lambda>p. NoSuchFile)\<rparr>"
          int_of_ascii]
        load_data_outcomes [of "\<lambda>p. RegularFile Malformed" "''d.json''" example_data
          "example_args\<lparr>arg_data := ''d.json''\<rparr>" "example_env\<lparr>files := (\<lambda>p. RegularFile Malformed)\<rparr>"
          int_of_ascii]
        load_data_outcomes [of "\<lambda>p. RegularFile (WellFormed example_data)" "''d.json''" example_data
          example_args example_env int_of_ascii]
        load_data_outcomes [of "\<lambda>p. NoPermission" "''d.json''" example_data
          example_args example_env int_of_ascii]
        load_data_outcomes [of "\<lambda>p. Directory" "''d.json''" example_data
          example_args example_env int_of_ascii]
        load_data_outcomes [of "\<lambda>p. RegularFile Undecodable" "''d.json''" example_data
          example_args example_env int_of_ascii]
  by (simp add: exit_status_def example_args_def)

text \<open>
  A directory is not a readable file, yet \<open>load_data\<close> neither prints its diagnostic nor
  exits nor returns a mapping: IsADirectoryError leaves it uncaught.
\<close>

theorem load_data_unreadable_counterexample:
  "load_data (\<lambda>p. Directory) ''data'' = ([], Raises IsADirectoryError)"
  by (simp add: load_data_def py_open_def)




subsection \<open>What a call leaves in the store\<close>

lemma take_alloc: "n \<le> length h \<Longrightarrow> take n (snd (alloc v h)) = take n h"
  by (simp add: alloc_def)

lemma director_list_append_frame:
  "n \<le> l \<Longrightarrow> take n (snd (director_list_append l x h)) = take n h"
  by (simp add: director_list_append_def split: option.splits obj.splits)

lemma director_list_append_length:
  "length (snd (director_list_append l x h)) = length h"
  by (simp add: director_list_append_def split: option.splits obj.splits)

lemma directors_loop_st_frame:
  "n \<le> l \<Longrightarrow> take n (snd (directors_loop_st d l h)) = take n h"
proof (induction d l h rule: directors_loop_st.induct)
  case (1 l h)
  then show ?case by simp
next
  case (2 director info rest l h)
  show ?case
  proof (cases "count_in_top1000 info > 0")
    case False
    with 2 show ?thesis by simp
  next
    case True
    obtain res h' where ap: "director_list_append l (mk_director_row director info) h = (res, h')"
      by (cases "director_list_append l (mk_director_row director info) h")
    have fr: "take n h' = take n h"
      using director_list_append_frame [OF \<open>n \<le> l\<close>, of "mk_director_row director info" h] ap by simp
    show ?thesis
    proof (cases res)
      case (Inl e)
      with True ap fr show ?thesis by simp
    next
      case (Inr u)
      with True ap have "take n (snd (directors_loop_st rest l h')) = take n h'"
        using "2.IH"(1) [OF True ap [symmetric] _ \<open>n \<le> l\<close>] by simp
      with True ap Inr fr show ?thesis by simp
    qed
  qed
qed

lemma director_list_sort_frame:
  "n \<le> l \<Longrightarrow> take n (snd (director_list_sort l h)) = take n h"
  by (simp add: director_list_sort_def split: option.splits obj.splits)

lemma director_list_slice_frame:
  "n \<le> length h \<Longrightarrow> take n (snd (director_list_slice l k h)) = take n h"
  by (simp add: director_list_slice_def alloc_def split: option.splits obj.splits)

lemma director_list_sort_length:
  "length (snd (director_list_sort l h)) = length h"
  by (simp add: director_list_sort_def split: option.splits obj.splits)

lemma directors_loop_st_length:
  "length (snd (directors_loop_st d l h)) = length h"
proof (induction d l h rule: directors_loop_st.induct)
  case (1 l h)
  then show ?case by simp
next
  case (2 director info rest l h)
  show ?case
  proof (cases "count_in_top1000 info > 0")
    case False
    with 2 show ?thesis by simp
  next
    case True
    obtain res h' where ap: "director_list_append l (mk_director_row director info) h = (res, h')"
      by (cases "director_list_append l (mk_director_row director info) h")
    have len: "length h' = length h"
      using director_list_append_length [of l "mk_director_row director info" h] ap by simp
    show ?thesis
    proof (cases res)
      case (Inl e)
      with True ap len show ?thesis by simp
    next
      case (Inr u)
      with True ap have "length (snd (directors_loop_st rest l h')) = length h'"
        using "2.IH"(1) [OF True ap [symmetric]] by simp
      with True ap Inr len show ?thesis by simp
    qed
  qed
qed

lemma analyze_directors_st_frame:
  "take (length h) (snd (analyze_directors_st a n h)) = h"
proof (cases "\<exists>d. lookup h a = Some (DatasetObj d)")
  case False
  then show ?thesis
    by (auto simp: analyze_directors_st_def split: option.splits obj.splits)
next
  case True
  then obtain d where d: "lookup h a = Some (DatasetObj d)" by blast
  define h1 where "h1 = h @ [DirectorListObj []]"
  define l where "l = length h"
  obtain r2 h2 where s2: "directors_loop_st d l h1 = (r2, h2)"
    by (cases "directors_loop_st d l h1")
  have f2: "take (length h) h2 = h"
    using directors_loop_st_frame [of "length h" l d h1] s2 by (simp add: l_def h1_def)
  have l2: "length h2 = Suc (length h)"
    using directors_loop_st_length [of d l h1] s2 by (simp add: h1_def)
  obtain r3 h3 where s3: "director_list_sort l h2 = (r3, h3)"
    by (cases "director_list_sort l h2")
  have f3: "take (length h) h3 = h"
    using director_list_sort_frame [of "length h" l h2] s3 f2 by (simp add: l_def)
  have l3: "length h3 = Suc (length h)"
    using director_list_sort_length [of l h2] s3 l2 by simp
  have f4: "take (length h) (snd (director_list_slice l n h3)) = h"
    using director_list_slice_frame [of "length h" h3 l n] f3 l3 by simp
  show ?thesis
    using d s2 s3 f2 f3 f4
    by (simp add: analyze_directors_st_def alloc_def l_def [symmetric] h1_def [symmetric]
             split: sum.splits)
qed

lemma decade_list_append_frame:
  "n \<le> l \<Longrightarrow> take n (snd (decade_list_append l x h)) = take n h"
  by (simp add: decade_list_append_def split: option.splits obj.splits)

lemma decade_list_append_length:
  "length (snd (decade_list_append l x h)) = length h"
  by (simp add: decade_list_append_def split: option.splits obj.splits)

lemma decade_list_sort_frame:
  "n \<le> l \<Longrightarrow> take n (snd (decade_list_sort to_int l h)) = take n h"
  by (simp add: decade_list_sort_def split: option.splits obj.splits sum.splits)

lemma decades_loop_st_frame:
  "n \<le> l \<Longrightarrow> take n (snd (decades_loop_st to_int ds l h)) = take n h"
proof (induction ds arbitrary: h)
  case Nil
  then show ?case by simp
next
  case (Cons p rest)
  obtain d info where p: "p = (d, info)" by (cases p)
  obtain res h' where ap: "decade_list_append l (mk_decade_row d info) h = (res, h')"
    by (cases "decade_list_append l (mk_decade_row d info) h")
  have fr: "take n h' = take n h"
    using decade_list_append_frame [OF \<open>n \<le> l\<close>, of "mk_decade_row d info" h] ap by simp
  have step: "take n (snd (decades_loop_st to_int rest l h')) = take n h"
    using Cons.IH [OF \<open>n \<le> l\<close>, of h'] fr by simp
  show ?case
    using Cons.IH [OF \<open>n \<le> l\<close>, of h] step fr ap
    by (simp add: p split: option.splits sum.splits)
qed

lemma analyze_decades_st_frame:
  "take (length h) (snd (snd (analyze_decades_st to_int a name h))) = h"
proof (cases "\<exists>d info. lookup h a = Some (DatasetObj d) \<and> map_of d name = Some info")
  case False
  then show ?thesis
    by (auto simp: analyze_decades_st_def split: option.splits obj.splits)
next
  case True
  then obtain d info where d: "lookup h a = Some (DatasetObj d)" and i: "map_of d name = Some info"
    by blast
  define h1 where "h1 = h @ [DecadeListObj []]"
  define l where "l = length h"
  obtain r2 h2 where s2: "decades_loop_st to_int (decades info) l h1 = (r2, h2)"
    by (cases "decades_loop_st to_int (decades info) l h1")
  have f2: "take (length h) h2 = h"
    using decades_loop_st_frame [of "length h" l to_int "decades info" h1] s2 by (simp add: l_def h1_def)
  obtain r3 h3 where s3: "decade_list_sort to_int l h2 = (r3, h3)"
    by (cases "decade_list_sort to_int l h2")
  have f3: "take (length h) h3 = h"
    using decade_list_sort_frame [of "length h" l to_int h2] s3 f2 by (simp add: l_def)
  show ?thesis
    using d i s2 s3 f2 f3
    by (simp add: analyze_decades_st_def alloc_def l_def [symmetric] h1_def [symmetric]
             split: sum.splits)
qed

text \<open>
  C8. Neither analysis changes an object that existed before the call: the store after
  \<open>analyze_directors\<close>, and after \<open>analyze_decades\<close>, begins with the store before it,
  whatever the arguments and the conversion and however the call ends. In particular the
  dataset passed in is the same before and after.
\<close>

theorem analyzers_leave_store:
  "prefix h (snd (analyze_directors_st a n h))
   \<and> prefix h (snd (snd (analyze_decades_st to_int a name h)))"
proof
  show "prefix h (snd (analyze_directors_st a n h))"
    using take_is_prefix [of "length h" "snd (analyze_directors_st a n h)"]
    by (simp add: analyze_directors_st_frame)
  show "prefix h (snd (snd (analyze_decades_st to_int a name h)))"
    using take_is_prefix [of "length h" "snd (snd (analyze_decades_st to_int a name h))"]
    by (simp add: analyze_decades_st_frame)
qed

subsection \<open>The store version computes the pure one\<close>

lemma directors_loop_st_eq:
  "l < length h \<Longrightarrow> h ! l = DirectorListObj acc \<Longrightarrow>
   directors_loop_st d l h = (Inr (), h[l := DirectorListObj (directors_loop d acc)])"
proof (induction d arbitrary: h acc)
  case Nil
  then have "h[l := DirectorListObj acc] = h"
    by (metis list_update_id)
  then show ?case by simp
next
  case (Cons p rest)
  obtain director info where p: "p = (director, info)" by (cases p)
  show ?case
  proof (cases "count_in_top1000 info > 0")
    case False
    with Cons p show ?thesis by simp
  next
    case True
    let ?acc = "acc @ [mk_director_row director info]"
    let ?h = "h[l := DirectorListObj ?acc]"
    have ap: "director_list_append l (mk_director_row director info) h = (Inr (), ?h)"
      using Cons.prems by (simp add: director_list_append_def lookup_def)
    have "directors_loop_st rest l ?h = (Inr (), ?h[l := DirectorListObj (directors_loop rest ?acc)])"
      using Cons.prems by (intro Cons.IH) simp_all
    with True ap p show ?thesis by simp
  qed
qed

text \<open>
  \<open>analyze_directors\<close> on the store allocates the working list and the slice, and the
  slice holds the rows that the pure function returns.
\<close>

lemma analyze_directors_st_eq:
  assumes "lookup h a = Some (DatasetObj d)"
  shows "analyze_directors_st a n h =
           (Inr (Suc (length h)),
            h @ [DirectorListObj (directors_list_sorted d), DirectorListObj (analyze_directors d n)])"
proof -
  have loop: "directors_loop_st d (length h) (h @ [DirectorListObj []]) =
                (Inr (), h @ [DirectorListObj (directors_loop d [])])"
    using directors_loop_st_eq [of "length h" "h @ [DirectorListObj []]" "[]" d] by simp
  have srt: "director_list_sort (length h) (h @ [DirectorListObj (directors_loop d [])]) =
               (Inr (), h @ [DirectorListObj (directors_list_sorted d)])"
    by (simp add: director_list_sort_def lookup_def directors_list_sorted_def)
  have slc: "director_list_slice (length h) n (h @ [DirectorListObj (directors_list_sorted d)]) =
               (Inr (Suc (length h)),
                h @ [DirectorListObj (directors_list_sorted d), DirectorListObj (analyze_directors d n)])"
    by (simp add: director_list_slice_def lookup_def alloc_def analyze_directors_def)
  show ?thesis
    using assms by (simp add: analyze_directors_st_def alloc_def loop srt slc)
qed

lemma lookup_append_old: "lookup h a = Some v \<Longrightarrow> lookup (h @ ext) a = Some v"
  by (auto simp: lookup_def nth_append split: if_splits)

lemma decades_loop_st_eq:
  "l < length h \<Longrightarrow> h ! l = DecadeListObj acc \<Longrightarrow>
   (case decades_loop to_int ds acc of
      Inr rows \<Rightarrow> decades_loop_st to_int ds l h = (Inr (), h[l := DecadeListObj rows])
    | Inl e \<Rightarrow> \<exists>rows. decades_loop_st to_int ds l h = (Inl e, h[l := DecadeListObj rows]))"
proof (induction ds arbitrary: h acc)
  case Nil
  then have "h[l := DecadeListObj acc] = h"
    by (metis list_update_id)
  then show ?case by simp
next
  case (Cons p rest)
  obtain d info where p: "p = (d, info)" by (cases p)
  have same: "h[l := DecadeListObj acc] = h"
    using Cons.prems by (metis list_update_id)
  let ?acc = "acc @ [mk_decade_row d info]"
  let ?h = "h[l := DecadeListObj ?acc]"
  have ap: "decade_list_append l (mk_decade_row d info) h = (Inr (), ?h)"
    using Cons.prems by (simp add: decade_list_append_def lookup_def)
  have skip: "case decades_loop to_int rest acc of
      Inr rows \<Rightarrow> decades_loop_st to_int rest l h = (Inr (), h[l := DecadeListObj rows])
    | Inl e \<Rightarrow> \<exists>rows. decades_loop_st to_int rest l h = (Inl e, h[l := DecadeListObj rows])"
    using Cons.prems by (rule Cons.IH)
  have "case decades_loop to_int rest ?acc of
      Inr rows \<Rightarrow> decades_loop_st to_int rest l ?h = (Inr (), ?h[l := DecadeListObj rows])
    | Inl e \<Rightarrow> \<exists>rows. decades_loop_st to_int rest l ?h = (Inl e, ?h[l := DecadeListObj rows])"
    using Cons.prems by (intro Cons.IH) simp_all
  then have keep: "case decades_loop to_int rest ?acc of
      Inr rows \<Rightarrow> decades_loop_st to_int rest l ?h = (Inr (), h[l := DecadeListObj rows])
    | Inl e \<Rightarrow> \<exists>rows. decades_loop_st to_int rest l ?h = (Inl e, h[l := DecadeListObj rows])"
    by (simp split: sum.splits)
  show ?case
  proof (cases "d \<noteq> ''unknown''")
    case False
    with skip p show ?thesis by (simp split: sum.splits)
  next
    case True
    show ?thesis
    proof (cases "to_int d")
      case None
      have "decades_loop_st to_int (p # rest) l h = (Inl ValueError, h[l := DecadeListObj acc])"
        using True None p same by simp
      then have "\<exists>rows. decades_loop_st to_int (p # rest) l h = (Inl ValueError, h[l := DecadeListObj rows])"
        by (rule exI)
      with True None p show ?thesis by simp
    next
      case (Some v)
      show ?thesis
      proof (cases "v > 0")
        case False
        with True Some skip p show ?thesis by (simp split: sum.splits)
      next
        case pos: True
        with True Some keep ap p show ?thesis by (simp split: sum.splits)
      qed
    qed
  qed
qed

text \<open>
  \<open>analyze_decades\<close> on the store prints and ends as the pure function does, and the list
  object it returns holds the rows that the pure function returns.
\<close>

lemma analyze_decades_st_eq:
  assumes "lookup h a = Some (DatasetObj d)"
  shows "fst (analyze_decades_st to_int a name h) = fst (analyze_decades to_int d name)
       \<and> (case snd (analyze_decades to_int d name) of
            Inl e \<Rightarrow> fst (snd (analyze_decades_st to_int a name h)) = Inl e
          | Inr None \<Rightarrow> snd (analyze_decades_st to_int a name h) = (Inr None, h)
          | Inr (Some rows) \<Rightarrow>
              snd (analyze_decades_st to_int a name h) = (Inr (Some (length h)), h @ [DecadeListObj rows]))"
proof (cases "map_of d name")
  case None
  with assms show ?thesis
    by (simp add: analyze_decades_st_def analyze_decades_def)
next
  case (Some info)
  let ?h1 = "h @ [DecadeListObj []]"
  have loop: "case decades_loop to_int (decades info) [] of
      Inr rows \<Rightarrow> decades_loop_st to_int (decades info) (length h) ?h1 = (Inr (), h @ [DecadeListObj rows])
    | Inl e \<Rightarrow> \<exists>rows. decades_loop_st to_int (decades info) (length h) ?h1 = (Inl e, h @ [DecadeListObj rows])"
    using decades_loop_st_eq [of "length h" ?h1 "[]" to_int "decades info"]
    by (simp split: sum.splits)
  show ?thesis
  proof (cases "decades_loop to_int (decades info) []")
    case (Inl e)
    with loop obtain rows where
      "decades_loop_st to_int (decades info) (length h) ?h1 = (Inl e, h @ [DecadeListObj rows])"
      by auto
    with assms Some Inl show ?thesis
      by (simp add: analyze_decades_st_def analyze_decades_def alloc_def)
  next
    case (Inr rows)
    with loop have st: "decades_loop_st to_int (decades info) (length h) ?h1 = (Inr (), h @ [DecadeListObj rows])"
      by simp
    show ?thesis
    proof (cases "list_sort_partial (\<lambda>x. to_int (decade x)) rows")
      case (Inl e)
      then have "decade_list_sort to_int (length h) (h @ [DecadeListObj rows]) = (Inl e, h @ [DecadeListObj rows])"
        by (simp add: decade_list_sort_def lookup_def)
      with assms Some Inr Inl st show ?thesis
        by (simp add: analyze_decades_st_def analyze_decades_def alloc_def)
    next
      case sorted: (Inr ys)
      then have "decade_list_sort to_int (length h) (h @ [DecadeListObj rows]) = (Inr (), h @ [DecadeListObj ys])"
        by (simp add: decade_list_sort_def lookup_def)
      with assms Some Inr sorted st show ?thesis
        by (simp add: analyze_decades_st_def analyze_decades_def alloc_def)
    qed
  qed
qed

text \<open>
  C6. Calling \<open>analyze_directors\<close> twice on the same dataset with the same \<open>top_n\<close>, the
  second call in the store that the first one left, gives two lists with the same
  entries, those of the pure function; the first list is still intact after the second
  call, and so is the dataset.
\<close>

theorem analyze_directors_repeatable:
  assumes "lookup h a = Some (DatasetObj d)"
  shows "\<exists>r1 h1 r2 h2.
           analyze_directors_st a n h = (Inr r1, h1)
         \<and> analyze_directors_st a n h1 = (Inr r2, h2)
         \<and> lookup h1 r1 = Some (DirectorListObj (analyze_directors d n))
         \<and> lookup h2 r1 = Some (DirectorListObj (analyze_directors d n))
         \<and> lookup h2 r2 = Some (DirectorListObj (analyze_directors d n))
         \<and> lookup h2 a = Some (DatasetObj d)"
proof -
  let ?new = "[DirectorListObj (directors_list_sorted d), DirectorListObj (analyze_directors d n)]"
  let ?h1 = "h @ ?new"
  let ?h2 = "?h1 @ ?new"
  have c1: "analyze_directors_st a n h = (Inr (Suc (length h)), ?h1)"
    using assms by (rule analyze_directors_st_eq)
  have d1: "lookup ?h1 a = Some (DatasetObj d)"
    using assms by (rule lookup_append_old)
  have c2: "analyze_directors_st a n ?h1 = (Inr (Suc (length ?h1)), ?h2)"
    using d1 by (rule analyze_directors_st_eq)
  have r1: "lookup ?h1 (Suc (length h)) = Some (DirectorListObj (analyze_directors d n))"
    by (simp add: lookup_def nth_append)
  have r1': "lookup ?h2 (Suc (length h)) = Some (DirectorListObj (analyze_directors d n))"
    using r1 by (rule lookup_append_old)
  have r2: "lookup ?h2 (Suc (length ?h1)) = Some (DirectorListObj (analyze_directors d n))"
    by (simp add: lookup_def nth_append)
  have d2: "lookup ?h2 a = Some (DatasetObj d)"
    using d1 by (rule lookup_append_old)
  from c1 c2 r1 r1' r2 d2 show ?thesis by blast
qed

text \<open>
  The worked example, asked twice for its top director.
\<close>

theorem analyze_directors_repeatable_witness:
  "lookup [DatasetObj example_data] 0 = Some (DatasetObj example_data)
   \<and> (\<exists>r1 h1 r2 h2.
         analyze_directors_st 0 1 [DatasetObj example_data] = (Inr r1, h1)
       \<and> analyze_directors_st 0 1 h1 = (Inr r2, h2)
       \<and> lookup h2 r1 =
           Some (DirectorListObj [\<lparr>row_name = ''A'', row_count = 5, row_avg_rating = 8.2\<rparr>])
       \<and> lookup h2 r2 =
           Some (DirectorListObj [\<lparr>row_name = ''A'', row_count = 5, row_avg_rating = 8.2\<rparr>]))"
proof -
  have l: "lookup [DatasetObj example_data] 0 = Some (DatasetObj example_data)"
    by (simp add: lookup_def)
  have v: "analyze_directors example_data 1 =
             [\<lparr>row_name = ''A'', row_count = 5, row_avg_rating = 8.2\<rparr>]"
    by (simp add: example_data_def eval_directors)
  from analyze_directors_repeatable [OF l, of 1] l show ?thesis
    unfolding v by blast
qed

end
